theory Spec2Isabelle
  imports Complex_Main "HOL-Library.Product_Lexorder"
begin

section \<open>Cells, text, dates and rows of the employee table\<close>

text \<open>
  A column of the DataFrame holds dynamically typed cells. The two pandas operations the
  code applies to a raw cell are \<^verbatim>\<open>isna()\<close> and a coercion with
  \<^verbatim>\<open>errors="coerce"\<close> (\<^verbatim>\<open>pd.to_numeric\<close>, \<^verbatim>\<open>pd.to_datetime\<close>). A cell
  is therefore one of: a null (\<^verbatim>\<open>None\<close>, \<^verbatim>\<open>NaN\<close>, \<^verbatim>\<open>NaT\<close>), a non-null value that
  the coercion turns into the value \<open>v\<close> (a number, or a text that parses to it), or a
  non-null value that the coercion cannot parse and turns into a null.
  Numbers are integers, as the data model of the employee record has them; dates carry no
  time of day. A text is a Python \<^verbatim>\<open>str\<close>, a list of Unicode code points; \<open>str_of\<close> writes
  an ASCII text as its code points.
\<close>

datatype 'a cell = NA | Val 'a | Unparseable

type_synonym date = "nat \<times> nat \<times> nat"

type_synonym str = "nat list"

definition str_of :: "string \<Rightarrow> str" where
  "str_of s = map of_char s"

fun isna :: "'a cell \<Rightarrow> bool" where
  "isna NA = True"
| "isna (Val v) = False"
| "isna Unparseable = False"

text \<open>\<^verbatim>\<open>pd.to_numeric(col, errors="coerce")\<close> and \<^verbatim>\<open>pd.to_datetime(col, errors="coerce")\<close>
  on one cell; \<open>None\<close> is the null of the coerced column.\<close>

fun coerce :: "'a cell \<Rightarrow> 'a option" where
  "coerce NA = None"
| "coerce (Val v) = Some v"
| "coerce Unparseable = None"

abbreviation to_numeric :: "int cell \<Rightarrow> int option" where
  "to_numeric \<equiv> coerce"

abbreviation to_datetime :: "date cell \<Rightarrow> date option" where
  "to_datetime \<equiv> coerce"

record employee_row =
  employee_id :: "int cell"
  name :: "str option"
  position :: "str option"
  start_date :: "date cell"
  salary :: "int cell"
  department_id :: "int cell"
  is_dirty :: bool

record cleaned_row = employee_row +
  issue_missing_name :: bool
  issue_missing_position :: bool
  issue_missing_start_date :: bool
  issue_missing_salary :: bool
  issue_invalid_salary :: bool
  issue_invalid_start_date :: bool
  has_any_issue :: bool

datatype py_error = ValueError | TypeError

section \<open>Text normalisation: \<^verbatim>\<open>str.strip()\<close> and \<^verbatim>\<open>str.title()\<close>\<close>

text \<open>
  Python's \<^verbatim>\<open>str.strip\<close> and \<^verbatim>\<open>str.title\<close> follow the Unicode character tables of the
  interpreter. For the ASCII code points (below 128) the tables are written out here: white
  space is 9 to 13 and 28 to 32, the cased characters are the letters, and the case mappings
  shift a letter by 32. The tables beyond ASCII are a parameter: which code points are white
  space, which are cased, the lower case of the character at a position of a text (it may
  depend on the text around it, as for the final sigma) and the title case of a character,
  each mapping giving one or more code points.
\<close>

record unicode =
  isspace :: "nat \<Rightarrow> bool"
  iscased :: "nat \<Rightarrow> bool"
  tolower :: "str \<Rightarrow> nat \<Rightarrow> str"
  totitle :: "nat \<Rightarrow> str"

definition is_space :: "unicode \<Rightarrow> nat \<Rightarrow> bool" where
  "is_space U c = (if c < 128 then (9 \<le> c \<and> c \<le> 13) \<or> (28 \<le> c \<and> c \<le> 32) else isspace U c)"

definition is_cased :: "unicode \<Rightarrow> nat \<Rightarrow> bool" where
  "is_cased U c = (if c < 128 then (65 \<le> c \<and> c \<le> 90) \<or> (97 \<le> c \<and> c \<le> 122) else iscased U c)"

definition to_lower :: "unicode \<Rightarrow> str \<Rightarrow> nat \<Rightarrow> nat \<Rightarrow> str" where
  "to_lower U s i c =
     (if c < 128 then [if 65 \<le> c \<and> c \<le> 90 then c + 32 else c] else tolower U s i)"

definition to_title :: "unicode \<Rightarrow> nat \<Rightarrow> str" where
  "to_title U c =
     (if c < 128 then [if 97 \<le> c \<and> c \<le> 122 then c - 32 else c] else totitle U c)"

definition strip :: "unicode \<Rightarrow> str \<Rightarrow> str" where
  "strip U s = rev (dropWhile (is_space U) (rev (dropWhile (is_space U) s)))"

text \<open>\<^verbatim>\<open>str.title()\<close>: a character that follows a cased character is lowered, any other
  one is put in title case. \<open>s\<close> is the whole text, \<open>i\<close> the position of the next
  character and \<open>prev\<close> whether the previous character is cased.\<close>

fun title_from :: "unicode \<Rightarrow> str \<Rightarrow> nat \<Rightarrow> bool \<Rightarrow> str \<Rightarrow> str" where
  "title_from U s i prev [] = []"
| "title_from U s i prev (c # cs) =
     (if prev then to_lower U s i c else to_title U c)
       @ title_from U s (Suc i) (is_cased U c) cs"

definition title :: "unicode \<Rightarrow> str \<Rightarrow> str" where
  "title U s = title_from U s 0 False s"

section \<open>\<^verbatim>\<open>EmployeeCleaner.clean\<close>\<close>

definition SALARY_MIN :: int where "SALARY_MIN = 60000"
definition SALARY_MAX :: int where "SALARY_MAX = 200000"
definition DATE_MIN :: date where "DATE_MIN = (2015, 1, 1)"
definition DATE_MAX :: date where "DATE_MAX = (2024, 12, 31)"
definition DEFAULT_DATE :: date where "DEFAULT_DATE = (2019, 1, 1)"

text \<open>\<^verbatim>\<open>(out["salary"] < 60000) | (out["salary"] > 200000)\<close> on the coerced column: a
  comparison with a null is false.\<close>

fun invalid_salary :: "int option \<Rightarrow> bool" where
  "invalid_salary None = False"
| "invalid_salary (Some n) = (n < SALARY_MIN \<or> n > SALARY_MAX)"

fun invalid_start_date :: "date option \<Rightarrow> bool" where
  "invalid_start_date None = False"
| "invalid_start_date (Some d) = (d < DATE_MIN \<or> d > DATE_MAX)"

text \<open>\<^verbatim>\<open>out.loc[flag, col] = pd.NA\<close>: a flagged value is set aside.\<close>

definition set_aside :: "('a option \<Rightarrow> bool) \<Rightarrow> 'a option \<Rightarrow> 'a option" where
  "set_aside flag v = (if flag v then None else v)"

text \<open>\<^verbatim>\<open>Series.dropna()\<close>.\<close>

fun dropna :: "'a option list \<Rightarrow> 'a list" where
  "dropna [] = []"
| "dropna (None # vs) = dropna vs"
| "dropna (Some v # vs) = v # dropna vs"

text \<open>\<^verbatim>\<open>Series.median()\<close> skips the nulls; it is the middle value of the sorted values, the
  mean of the two middle values when their number is even, and a null when there is none.\<close>

definition median :: "int option list \<Rightarrow> rat option" where
  "median col =
     (let s = sort (dropna col); n = length s in
      if n = 0 then None
      else if odd n then Some (of_int (s ! (n div 2)))
      else Some ((of_int (s ! (n div 2 - 1)) + of_int (s ! (n div 2))) / 2))"

text \<open>\<^verbatim>\<open>Series.fillna(value)\<close>, the value itself possibly a null.\<close>

fun fillna :: "'a option \<Rightarrow> 'a option \<Rightarrow> 'a option" where
  "fillna fill None = fill"
| "fillna fill (Some v) = Some v"

text \<open>\<^verbatim>\<open>Series.astype(int)\<close> on a float column: the fraction is dropped (towards zero), and
  a null left in the column raises \<^verbatim>\<open>ValueError\<close>.\<close>

definition trunc :: "rat \<Rightarrow> int" where
  "trunc x = (if 0 \<le> x then \<lfloor>x\<rfloor> else - \<lfloor>- x\<rfloor>)"

fun astype_int :: "rat option list \<Rightarrow> py_error + int list" where
  "astype_int [] = Inr []"
| "astype_int (None # vs) = Inl ValueError"
| "astype_int (Some v # vs) =
     (case astype_int vs of Inl e \<Rightarrow> Inl e | Inr ns \<Rightarrow> Inr (trunc v # ns))"

text \<open>\<^verbatim>\<open>Series.mode()\<close> returns the most frequent non-null values in ascending order;
  line 45 takes the first of them with \<^verbatim>\<open>.iloc[0]\<close>.\<close>

definition mode :: "date option list \<Rightarrow> date list" where
  "mode col =
     (let ds = dropna col; m = fold max (map (count_list ds) ds) 0 in
      sort (remdups (filter (\<lambda>d. count_list ds d = m) ds)))"

definition fill_dt :: "date option list \<Rightarrow> date" where
  "fill_dt col = (if dropna col = [] then DEFAULT_DATE else hd (mode col))"

text \<open>The salary column after line 30 (coerced, the flagged values set aside) and after
  line 31.\<close>

definition kept_salaries :: "int cell list \<Rightarrow> int option list" where
  "kept_salaries col = map (set_aside invalid_salary \<circ> to_numeric) col"

definition clean_salaries :: "int cell list \<Rightarrow> py_error + int list" where
  "clean_salaries col =
     (let kept = kept_salaries col;
          m = median kept
      in astype_int (map (\<lambda>v. fillna m (map_option of_int v)) kept))"

text \<open>
  The date column after line 40 and after line 46. When the column has rows and none of
  them coerces to a date, \<^verbatim>\<open>.dt.date\<close> of the all-null column is a datetime column again,
  and its comparison with a \<^verbatim>\<open>datetime.date\<close> on lines 37 and 38 raises
  \<^verbatim>\<open>TypeError\<close>.
\<close>

definition kept_dates :: "date cell list \<Rightarrow> date option list" where
  "kept_dates col = map (set_aside invalid_start_date \<circ> to_datetime) col"

definition clean_dates :: "date cell list \<Rightarrow> py_error + date list" where
  "clean_dates col =
     (if col \<noteq> [] \<and> list_all (\<lambda>c. to_datetime c = None) col then Inl TypeError
      else let kept = kept_dates col;
               f = fill_dt kept
           in Inr (map (\<lambda>v. case v of None \<Rightarrow> f | Some d \<Rightarrow> d) kept))"

definition clean_row ::
  "unicode \<Rightarrow> 'a employee_row_scheme \<Rightarrow> int \<Rightarrow> date \<Rightarrow> cleaned_row" where
  "clean_row U r sal dt =
     (let im_name = (name r = None);
          im_position = (position r = None);
          im_start_date = isna (start_date r);
          im_salary = isna (salary r);
          iv_salary = invalid_salary (to_numeric (salary r));
          iv_start_date = invalid_start_date (to_datetime (start_date r))
      in \<lparr> employee_id = employee_id r,
           name = Some (case name r of None \<Rightarrow> str_of ''Unknown'' | Some s \<Rightarrow> s),
           position = Some (title U (strip U
                        (case position r of None \<Rightarrow> str_of ''Unknown'' | Some s \<Rightarrow> s))),
           start_date = Val dt,
           salary = Val sal,
           department_id = department_id r,
           is_dirty = is_dirty r,
           issue_missing_name = im_name,
           issue_missing_position = im_position,
           issue_missing_start_date = im_start_date,
           issue_missing_salary = im_salary,
           issue_invalid_salary = iv_salary,
           issue_invalid_start_date = iv_start_date,
           has_any_issue = (im_name \<or> im_position \<or> im_start_date \<or> im_salary
                            \<or> iv_salary \<or> iv_start_date) \<rparr>)"

text \<open>The salary column is finished on line 31, before the dates are touched, so its error
  comes first.\<close>

definition clean ::
  "unicode \<Rightarrow> 'a employee_row_scheme list \<Rightarrow> py_error + cleaned_row list" where
  "clean U df =
     (case clean_salaries (map salary df) of
        Inl e \<Rightarrow> Inl e
      | Inr sals \<Rightarrow>
          (case clean_dates (map start_date df) of
             Inl e \<Rightarrow> Inl e
           | Inr dts \<Rightarrow>
               Inr (map (\<lambda>(r, sal, dt). clean_row U r sal dt) (zip df (zip sals dts)))))"

section \<open>The store: tables, sequences, transactions\<close>

text \<open>
  The four tables of \<^verbatim>\<open>create_tables\<close>, each a list of rows in insertion order:
  \<^item> departments \<open>(department_id, department_name, location, budget)\<close>, all \<^verbatim>\<open>NOT NULL\<close>,
    \<open>department_id\<close> a \<^verbatim>\<open>SERIAL\<close> primary key, \<open>department_name\<close> unique;
  \<^item> employees \<open>(employee_id, name, position, start_date, salary, department_id, is_dirty)\<close>,
    \<open>employee_id\<close> the primary key, \<open>department_id\<close> a reference to departments;
  \<^item> projects \<open>(project_id, project_name, project_type, start_date, end_date, budget)\<close>, all but
    \<open>end_date\<close> \<^verbatim>\<open>NOT NULL\<close>, \<open>project_id\<close> a \<^verbatim>\<open>SERIAL\<close> primary key, \<open>project_name\<close> unique;
  \<^item> employee_projects \<open>(employee_id, project_id, role_on_project)\<close>, the first two the
    primary key and references to employees and projects.
\<close>

record tables =
  departments :: "(int \<times> str \<times> str \<times> int) list"
  employees :: "(int \<times> str option \<times> str option \<times> date option \<times> int option \<times> int option \<times> bool) list"
  projects :: "(int \<times> str \<times> str \<times> date \<times> date option \<times> int) list"
  employee_projects :: "(int \<times> int \<times> str option) list"

text \<open>
  What the driver is handed for one placeholder of a statement: Python's \<^verbatim>\<open>None\<close>, a
  value, or one of the nulls of the frame library that are not \<^verbatim>\<open>None\<close>: the float
  \<^verbatim>\<open>nan\<close> and \<^verbatim>\<open>NaT\<close>. The driver sends \<^verbatim>\<open>None\<close> as SQL \<^verbatim>\<open>NULL\<close>, \<^verbatim>\<open>nan\<close> as the
  float \<^verbatim>\<open>'NaN'\<close> and \<^verbatim>\<open>NaT\<close> as the timestamp text \<^verbatim>\<open>'NaT'\<close>.
\<close>

datatype int_param = IntNull | IntParam int | IntNaN
datatype date_param = DateNull | DateParam date | DateNaT
datatype text_param = TextNull | TextParam str | TextNaN

type_synonym employee_tuple =
  "int_param \<times> text_param \<times> text_param \<times> date_param \<times> int_param \<times> int_param \<times> bool"
type_synonym department_tuple = "text_param \<times> text_param \<times> int_param"
type_synonym project_tuple =
  "text_param \<times> text_param \<times> date_param \<times> date_param \<times> int_param"
type_synonym assignment_tuple = "int_param \<times> int_param \<times> text_param"

text \<open>The last values handed out by the two \<^verbatim>\<open>SERIAL\<close> sequences; a sequence is not
  transactional, a rollback does not give a value back.\<close>

record sequences =
  departments_department_id_seq :: int
  projects_project_id_seq :: int

text \<open>A connection (autocommit off): the durable tables, the tables as the open transaction
  sees them, and whether the open transaction has failed and rejects every statement until
  it is rolled back.\<close>

record conn =
  committed :: tables
  txn :: tables
  aborted :: bool
  seqs :: sequences

datatype db_error =
    InvalidDatetimeFormat
  | NumericValueOutOfRange
  | NotNullViolation
  | UniqueViolation
  | ForeignKeyViolation
  | InFailedSqlTransaction

type_synonym 'r statement = "'r \<Rightarrow> sequences \<Rightarrow> tables \<Rightarrow> (db_error + tables) \<times> sequences"

definition PG_INT_MIN :: int where "PG_INT_MIN = - 2147483648"
definition PG_INT_MAX :: int where "PG_INT_MAX = 2147483647"

text \<open>A parameter for an \<^verbatim>\<open>INTEGER\<close> column: a null passes, a number must fit the column,
  and the float \<^verbatim>\<open>'NaN'\<close> is out of range.\<close>

fun fits_integer :: "int_param \<Rightarrow> bool" where
  "fits_integer IntNull = True"
| "fits_integer (IntParam n) = (PG_INT_MIN \<le> n \<and> n \<le> PG_INT_MAX)"
| "fits_integer IntNaN = False"

text \<open>The value a column takes from a parameter that the store has accepted; the float
  \<^verbatim>\<open>'NaN'\<close> given for a text column is stored as the text \<^verbatim>\<open>NaN\<close>.\<close>

fun stored_int :: "int_param \<Rightarrow> int option" where
  "stored_int (IntParam n) = Some n"
| "stored_int IntNull = None"
| "stored_int IntNaN = None"

fun stored_date :: "date_param \<Rightarrow> date option" where
  "stored_date (DateParam d) = Some d"
| "stored_date DateNull = None"
| "stored_date DateNaT = None"

fun stored_text :: "text_param \<Rightarrow> str option" where
  "stored_text (TextParam s) = Some s"
| "stored_text TextNull = None"
| "stored_text TextNaN = Some (str_of ''NaN'')"

text \<open>\<^verbatim>\<open>cursor.execute\<close>: a failed transaction rejects the statement; a statement that fails
  leaves the tables of the transaction as they were and marks the transaction failed.\<close>

definition execute :: "'r statement \<Rightarrow> conn \<Rightarrow> 'r \<Rightarrow> conn \<times> db_error option" where
  "execute sql c r =
     (if aborted c then (c, Some InFailedSqlTransaction)
      else case sql r (seqs c) (txn c) of
             (Inr t, q) \<Rightarrow> (c\<lparr>txn := t, seqs := q\<rparr>, None)
           | (Inl e, q) \<Rightarrow> (c\<lparr>aborted := True, seqs := q\<rparr>, Some e))"

text \<open>\<^verbatim>\<open>cursor.executemany\<close>: the statement once per row, in order, up to the first error.\<close>

fun executemany :: "'r statement \<Rightarrow> conn \<Rightarrow> 'r list \<Rightarrow> conn \<times> db_error option" where
  "executemany sql c [] = (c, None)"
| "executemany sql c (r # rs) =
     (case execute sql c r of
        (c', None) \<Rightarrow> executemany sql c' rs
      | (c', Some e) \<Rightarrow> (c', Some e))"

definition rollback :: "conn \<Rightarrow> conn" where
  "rollback c = c\<lparr>txn := committed c, aborted := False\<rparr>"

text \<open>\<^verbatim>\<open>connection.commit\<close>: the commit of a failed transaction is a rollback.\<close>

definition commit :: "conn \<Rightarrow> conn" where
  "commit c = (if aborted c then rollback c else c\<lparr>committed := txn c\<rparr>)"

section \<open>The statements of the four loaders\<close>

text \<open>
  One row of a statement is handled in the order of the store: the text \<^verbatim>\<open>'NaT'\<close> is not a
  date and is rejected when the statement is read; a value that does not fit an
  \<^verbatim>\<open>INTEGER\<close> column is rejected next; then the \<^verbatim>\<open>NOT NULL\<close> columns of the proposed row
  are checked; then the conflict clause decides between the insert and the conflict action;
  a row that is inserted must satisfy its references.
\<close>

text \<open>\<^verbatim>\<open>INSERT INTO employees ... ON CONFLICT (employee_id) DO NOTHING\<close>.\<close>

definition insert_employee :: "employee_tuple statement" where
  "insert_employee r q t =
     (case r of (eid, nm, pos, sd, sal, dep, dirty) \<Rightarrow>
        if sd = DateNaT then (Inl InvalidDatetimeFormat, q)
        else if \<not> (fits_integer eid \<and> fits_integer sal \<and> fits_integer dep)
        then (Inl NumericValueOutOfRange, q)
        else case stored_int eid of
               None \<Rightarrow> (Inl NotNullViolation, q)
             | Some i \<Rightarrow>
                 if i \<in> set (map fst (employees t)) then (Inr t, q)
                 else if (case stored_int dep of None \<Rightarrow> False
                          | Some d \<Rightarrow> d \<notin> set (map fst (departments t)))
                 then (Inl ForeignKeyViolation, q)
                 else (Inr (t\<lparr>employees := employees t @
                              [(i, stored_text nm, stored_text pos, stored_date sd,
                                stored_int sal, stored_int dep, dirty)]\<rparr>), q))"

text \<open>\<^verbatim>\<open>INSERT INTO departments ... ON CONFLICT (department_name) DO UPDATE SET location =
  EXCLUDED.location, budget = EXCLUDED.budget\<close>. The proposed row takes the next value of the
  sequence, also when it ends in an update.\<close>

definition upsert_department :: "department_tuple statement" where
  "upsert_department r q t =
     (case r of (dname, loc, bud) \<Rightarrow>
        if \<not> fits_integer bud then (Inl NumericValueOutOfRange, q)
        else
          let i = departments_department_id_seq q + 1;
              q' = q\<lparr>departments_department_id_seq := i\<rparr>
          in case (stored_text dname, stored_text loc, stored_int bud) of
               (Some n, Some l, Some b) \<Rightarrow>
                 if n \<in> set (map (fst \<circ> snd) (departments t))
                 then (Inr (t\<lparr>departments :=
                              map (\<lambda>(i0, n0, l0, b0). if n0 = n then (i0, n0, l, b) else (i0, n0, l0, b0))
                                (departments t)\<rparr>), q')
                 else if i \<in> set (map fst (departments t)) then (Inl UniqueViolation, q')
                 else (Inr (t\<lparr>departments := departments t @ [(i, n, l, b)]\<rparr>), q')
             | _ \<Rightarrow> (Inl NotNullViolation, q'))"

text \<open>\<^verbatim>\<open>INSERT INTO projects ... ON CONFLICT (project_name) DO UPDATE SET project_type, start_date,
  end_date, budget\<close> to the values of the proposed row.\<close>

definition upsert_project :: "project_tuple statement" where
  "upsert_project r q t =
     (case r of (pname, ptype, sd, ed, bud) \<Rightarrow>
        if sd = DateNaT \<or> ed = DateNaT then (Inl InvalidDatetimeFormat, q)
        else if \<not> fits_integer bud then (Inl NumericValueOutOfRange, q)
        else
          let i = projects_project_id_seq q + 1;
              q' = q\<lparr>projects_project_id_seq := i\<rparr>
          in case (stored_text pname, stored_text ptype, stored_date sd, stored_int bud) of
               (Some n, Some ty, Some s, Some b) \<Rightarrow>
                 if n \<in> set (map (fst \<circ> snd) (projects t))
                 then (Inr (t\<lparr>projects :=
                              map (\<lambda>(i0, n0, ty0, s0, e0, b0).
                                     if n0 = n then (i0, n0, ty, s, stored_date ed, b)
                                     else (i0, n0, ty0, s0, e0, b0))
                                (projects t)\<rparr>), q')
                 else if i \<in> set (map fst (projects t)) then (Inl UniqueViolation, q')
                 else (Inr (t\<lparr>projects := projects t @ [(i, n, ty, s, stored_date ed, b)]\<rparr>), q')
             | _ \<Rightarrow> (Inl NotNullViolation, q'))"

text \<open>\<^verbatim>\<open>INSERT INTO employee_projects ... ON CONFLICT (employee_id, project_id) DO NOTHING\<close>.\<close>

definition insert_assignment :: "assignment_tuple statement" where
  "insert_assignment r q t =
     (case r of (eid, pid, role) \<Rightarrow>
        if \<not> (fits_integer eid \<and> fits_integer pid) then (Inl NumericValueOutOfRange, q)
        else case (stored_int eid, stored_int pid) of
               (Some e, Some p) \<Rightarrow>
                 if (e, p) \<in> set (map (\<lambda>(e0, p0, r0). (e0, p0)) (employee_projects t))
                 then (Inr t, q)
                 else if e \<notin> set (map fst (employees t)) \<or> p \<notin> set (map fst (projects t))
                 then (Inl ForeignKeyViolation, q)
                 else (Inr (t\<lparr>employee_projects := employee_projects t @
                              [(e, p, stored_text role)]\<rparr>), q)
             | _ \<Rightarrow> (Inl NotNullViolation, q))"

section \<open>The loaders of \<^verbatim>\<open>DatabaseClient\<close>\<close>

text \<open>
  Every loader ends its preparation with \<^verbatim>\<open>df2.where(pd.notnull(df2), None)\<close>, and what
  that leaves of a null depends on the column:
  \<^item> a column coerced with \<^verbatim>\<open>pd.to_numeric\<close> that has a null is a float column, where
    the null stays the float \<^verbatim>\<open>nan\<close>;
  \<^item> a date column, coerced and then read with \<^verbatim>\<open>.dt.date\<close>, holds dates and nulls
    that become \<^verbatim>\<open>None\<close>, unless no row of it has a date: then it is a datetime column
    again and every null stays \<^verbatim>\<open>NaT\<close>;
  \<^item> in a text column a null becomes \<^verbatim>\<open>None\<close> when the frame library keeps text in object
    columns, and stays \<^verbatim>\<open>nan\<close> when it has a string type of its own whose null is
    \<^verbatim>\<open>nan\<close>; which of the two holds is a parameter of the loaders.
\<close>

datatype text_null = AsNone | AsNaN

fun text_param_of :: "text_null \<Rightarrow> str option \<Rightarrow> text_param" where
  "text_param_of nt (Some s) = TextParam s"
| "text_param_of AsNone None = TextNull"
| "text_param_of AsNaN None = TextNaN"

definition numeric_param :: "int cell \<Rightarrow> int_param" where
  "numeric_param c = (case to_numeric c of None \<Rightarrow> IntNaN | Some n \<Rightarrow> IntParam n)"

definition date_params :: "date cell list \<Rightarrow> date_param list" where
  "date_params col =
     (if list_all (\<lambda>c. to_datetime c = None) col then map (\<lambda>c. DateNaT) col
      else map (\<lambda>c. case to_datetime c of None \<Rightarrow> DateNull | Some d \<Rightarrow> DateParam d) col)"

text \<open>Lines 176 to 179: values above the maximum are set to the maximum, then values below
  the minimum to the minimum; a null compares false and stays.\<close>

definition clamp :: "int \<Rightarrow> int" where
  "clamp n =
     (let n1 = (if n > PG_INT_MAX then PG_INT_MAX else n)
      in if n1 < PG_INT_MIN then PG_INT_MIN else n1)"

definition clamped_param :: "int cell \<Rightarrow> int_param" where
  "clamped_param c = (case to_numeric c of None \<Rightarrow> IntNaN | Some n \<Rightarrow> IntParam (clamp n))"

text \<open>Lines 169 to 193 of \<^verbatim>\<open>insert_employees_df\<close>: the rows of the frame as the tuples
  sent.\<close>

definition employee_tuples ::
  "text_null \<Rightarrow> 'a employee_row_scheme list \<Rightarrow> employee_tuple list" where
  "employee_tuples nt df =
     map (\<lambda>(r, sd).
            (clamped_param (employee_id r), text_param_of nt (name r),
             text_param_of nt (position r), sd, clamped_param (salary r),
             clamped_param (department_id r), is_dirty r))
       (zip df (date_params (map start_date df)))"

text \<open>The row by row pass of lines 203 to 210: every row is executed on the same open
  transaction; at the first row that fails the transaction is rolled back, the index and the
  values of the row are printed and its error is raised again.\<close>

fun find_failing_row ::
  "'r statement \<Rightarrow> conn \<Rightarrow> nat \<Rightarrow> 'r list \<Rightarrow> conn \<times> (nat \<times> 'r \<times> db_error) option" where
  "find_failing_row sql c i [] = (c, None)"
| "find_failing_row sql c i (r # rs) =
     (case execute sql c r of
        (c', None) \<Rightarrow> find_failing_row sql c' (Suc i) rs
      | (c', Some e) \<Rightarrow> (rollback c', Some (i, r, e)))"

text \<open>The result of a loader call: the connection after it, the exception it raised if any,
  and what it printed (the index and the values of a bad row).\<close>

record 'r outcome =
  connection :: conn
  raised :: "db_error option"
  printed :: "(nat \<times> 'r) list"

definition insert_employees_df ::
  "text_null \<Rightarrow> conn \<Rightarrow> 'a employee_row_scheme list \<Rightarrow> employee_tuple outcome" where
  "insert_employees_df nt c df =
     (let rows = employee_tuples nt df in
      case executemany insert_employee c rows of
        (c1, None) \<Rightarrow> \<lparr>connection = commit c1, raised = None, printed = []\<rparr>
      | (c1, Some e) \<Rightarrow>
          (case find_failing_row insert_employee (rollback c1) 0 rows of
             (c2, Some (i, r, e')) \<Rightarrow> \<lparr>connection = c2, raised = Some e', printed = [(i, r)]\<rparr>
           | (c2, None) \<Rightarrow> \<lparr>connection = c2, raised = Some e, printed = []\<rparr>))"

text \<open>\<^verbatim>\<open>seed_departments\<close> hands its tuples to the driver as the caller gives them and
  has no handler.\<close>

definition seed_departments :: "conn \<Rightarrow> department_tuple list \<Rightarrow> department_tuple outcome" where
  "seed_departments c rows =
     (case executemany upsert_department c rows of
        (c1, None) \<Rightarrow> \<lparr>connection = commit c1, raised = None, printed = []\<rparr>
      | (c1, Some e) \<Rightarrow> \<lparr>connection = c1, raised = Some e, printed = []\<rparr>)"

text \<open>A row of the projects frame \<open>(project_name, project_type, start_date, end_date, budget)\<close>
  and of the assignments frame \<open>(employee_id, project_id, role_on_project)\<close>. These two
  loaders coerce and do not clamp.\<close>

type_synonym project_row = "str option \<times> str option \<times> date cell \<times> date cell \<times> int cell"
type_synonym assignment_row = "int cell \<times> int cell \<times> str option"

definition project_tuples :: "text_null \<Rightarrow> project_row list \<Rightarrow> project_tuple list" where
  "project_tuples nt df =
     map (\<lambda>((pname, ptype, sd0, ed0, bud), sd, ed).
            (text_param_of nt pname, text_param_of nt ptype, sd, ed, numeric_param bud))
       (zip df (zip (date_params (map (\<lambda>(pname, ptype, sd0, ed0, bud). sd0) df))
                    (date_params (map (\<lambda>(pname, ptype, sd0, ed0, bud). ed0) df))))"

definition insert_projects_df ::
  "text_null \<Rightarrow> conn \<Rightarrow> project_row list \<Rightarrow> project_tuple outcome" where
  "insert_projects_df nt c df =
     (case executemany upsert_project c (project_tuples nt df) of
        (c1, None) \<Rightarrow> \<lparr>connection = commit c1, raised = None, printed = []\<rparr>
      | (c1, Some e) \<Rightarrow> \<lparr>connection = rollback c1, raised = Some e, printed = []\<rparr>)"

definition assignment_tuples :: "text_null \<Rightarrow> assignment_row list \<Rightarrow> assignment_tuple list" where
  "assignment_tuples nt df =
     map (\<lambda>(eid, pid, role). (numeric_param eid, numeric_param pid, text_param_of nt role)) df"

definition insert_employee_projects_df ::
  "text_null \<Rightarrow> conn \<Rightarrow> assignment_row list \<Rightarrow> assignment_tuple outcome" where
  "insert_employee_projects_df nt c df =
     (case executemany insert_assignment c (assignment_tuples nt df) of
        (c1, None) \<Rightarrow> \<lparr>connection = commit c1, raised = None, printed = []\<rparr>
      | (c1, Some e) \<Rightarrow> \<lparr>connection = rollback c1, raised = Some e, printed = []\<rparr>)"

section \<open>Examples\<close>

text \<open>
  The entries of the tables beyond ASCII that the examples use: U+01F0 (small j with caron)
  is a cased, lower case letter whose title case is the two code points J and U+030C; U+030C
  (combining caron) is neither cased nor white space and is its own lower and title case.
  No example reaches another entry of this excerpt.
\<close>

definition unicode_excerpt :: unicode where
  "unicode_excerpt =
     \<lparr>isspace = (\<lambda>c. False),
      iscased = (\<lambda>c. c = 0x1F0),
      tolower = (\<lambda>s i. [s ! i]),
      totitle = (\<lambda>c. if c = 0x1F0 then [0x4A, 0x30C] else [c])\<rparr>"

text \<open>A batch with the salaries 70000, 80000, 500000 and a null and the dates 2016-01-01,
  2016-01-01, 2020-05-05 and a null, and the rows \<^verbatim>\<open>clean\<close> makes of it.\<close>

definition example_batch :: "employee_row list" where
  "example_batch =
     [\<lparr>employee_id = Val 1, name = Some (str_of ''Ada''),
        position = Some (str_of ''  data engineer ''),
        start_date = Val (2016, 1, 1), salary = Val 70000, department_id = Val 1,
        is_dirty = False\<rparr>,
      \<lparr>employee_id = Val 2, name = None, position = None,
        start_date = Val (2016, 1, 1), salary = Val 80000, department_id = NA,
        is_dirty = True\<rparr>,
      \<lparr>employee_id = Val 3, name = Some (str_of ''Bob''), position = Some (str_of ''Chef''),
        start_date = Val (2020, 5, 5), salary = Val 500000, department_id = Val 2,
        is_dirty = True\<rparr>,
      \<lparr>employee_id = Val 4, name = Some (str_of ''Cy''), position = Some (str_of ''qa engineer''),
        start_date = NA, salary = NA, department_id = NA, is_dirty = True\<rparr>]"

definition example_cleaned :: "cleaned_row list" where
  "example_cleaned =
     [\<lparr>employee_id = Val 1, name = Some (str_of ''Ada''),
        position = Some (str_of ''Data Engineer''),
        start_date = Val (2016, 1, 1), salary = Val 70000, department_id = Val 1,
        is_dirty = False,
        issue_missing_name = False, issue_missing_position = False,
        issue_missing_start_date = False, issue_missing_salary = False,
        issue_invalid_salary = False, issue_invalid_start_date = False,
        has_any_issue = False\<rparr>,
      \<lparr>employee_id = Val 2, name = Some (str_of ''Unknown''),
        position = Some (str_of ''Unknown''),
        start_date = Val (2016, 1, 1), salary = Val 80000, department_id = NA,
        is_dirty = True,
        issue_missing_name = True, issue_missing_position = True,
        issue_missing_start_date = False, issue_missing_salary = False,
        issue_invalid_salary = False, issue_invalid_start_date = False,
        has_any_issue = True\<rparr>,
      \<lparr>employee_id = Val 3, name = Some (str_of ''Bob''), position = Some (str_of ''Chef''),
        start_date = Val (2020, 5, 5), salary = Val 75000, department_id = Val 2,
        is_dirty = True,
        issue_missing_name = False, issue_missing_position = False,
        issue_missing_start_date = False, issue_missing_salary = False,
        issue_invalid_salary = True, issue_invalid_start_date = False,
        has_any_issue = True\<rparr>,
      \<lparr>employee_id = Val 4, name = Some (str_of ''Cy''), position = Some (str_of ''Qa Engineer''),
        start_date = Val (2016, 1, 1), salary = Val 75000, department_id = NA,
        is_dirty = True,
        issue_missing_name = False, issue_missing_position = False,
        issue_missing_start_date = True, issue_missing_salary = True,
        issue_invalid_salary = False, issue_invalid_start_date = False,
        has_any_issue = True\<rparr>]"

text \<open>A connection without pending work on a store that holds one department, one employee,
  one project and one assignment, and an employee row of the frame with a given
  \<open>employee_id\<close> and \<open>department_id\<close>.\<close>

definition example_tables :: tables where
  "example_tables =
     \<lparr>departments = [(1, str_of ''Security'', str_of ''Toronto'', 1800000)],
      employees = [(7, Some (str_of ''Ada''), Some (str_of ''Data Engineer''),
                    Some (2016, 1, 1), Some 70000, Some 1, False)],
      projects = [(1, str_of ''Apollo'', str_of ''Internal'', (2020, 1, 1), None, 50000)],
      employee_projects = [(7, 1, Some (str_of ''Lead''))]\<rparr>"

definition example_conn :: conn where
  "example_conn =
     \<lparr>committed = example_tables, txn = example_tables, aborted = False,
      seqs = \<lparr>departments_department_id_seq = 1, projects_project_id_seq = 1\<rparr>\<rparr>"

definition example_employee :: "int \<Rightarrow> int \<Rightarrow> employee_row" where
  "example_employee i d =
     \<lparr>employee_id = Val i, name = Some (str_of ''Bob''), position = Some (str_of ''Qa Engineer''),
      start_date = Val (2018, 3, 1), salary = Val 90000, department_id = Val d,
      is_dirty = False\<rparr>"

section \<open>Properties of the text normalisation on ASCII text\<close>

lemma to_lower_ascii [simp]:
  "c < 128 \<Longrightarrow> to_lower U s i c = [if 65 \<le> c \<and> c \<le> 90 then c + 32 else c]"
  by (simp add: to_lower_def)

lemma to_title_ascii [simp]:
  "c < 128 \<Longrightarrow> to_title U c = [if 97 \<le> c \<and> c \<le> 122 then c - 32 else c]"
  by (simp add: to_title_def)

lemma is_cased_ascii:
  "c < 128 \<Longrightarrow> is_cased U c = ((65 \<le> c \<and> c \<le> 90) \<or> (97 \<le> c \<and> c \<le> 122))"
  by (simp add: is_cased_def)

lemma is_space_ascii:
  "c < 128 \<Longrightarrow> is_space U c = ((9 \<le> c \<and> c \<le> 13) \<or> (28 \<le> c \<and> c \<le> 32))"
  by (simp add: is_space_def)

text \<open>On ASCII text the title case is again ASCII text of the same length, with white space
  where it was, and putting it in title case again changes nothing.\<close>

lemma title_char_ascii:
  assumes "c < 128"
  shows "\<exists>h. (if p then to_lower U s i c else to_title U c) = [h] \<and> h < 128
           \<and> is_cased U h = is_cased U c \<and> is_space U h = is_space U c
           \<and> (if p then to_lower U s' i' h else to_title U h) = [h]"
proof (cases p)
  case True
  let ?h = "if 65 \<le> c \<and> c \<le> 90 then c + 32 else c"
  from assms have h: "?h < 128" by auto
  from assms h have "is_cased U ?h = is_cased U c" "is_space U ?h = is_space U c"
    by (auto simp: is_cased_ascii is_space_ascii)
  moreover from h have "to_lower U s' i' ?h = [?h]" by (simp only: to_lower_ascii) auto
  ultimately show ?thesis using True assms h by (intro exI[of _ ?h]) simp
next
  case False
  let ?h = "if 97 \<le> c \<and> c \<le> 122 then c - 32 else c"
  from assms have h: "?h < 128" by auto
  from assms h have "is_cased U ?h = is_cased U c" "is_space U ?h = is_space U c"
    by (auto simp: is_cased_ascii is_space_ascii)
  moreover from h have "to_title U ?h = [?h]" by (simp only: to_title_ascii) auto
  ultimately show ?thesis using False assms h by (intro exI[of _ ?h]) simp
qed

lemma title_from_ascii_idem:
  "\<forall>c\<in>set cs. c < 128 \<Longrightarrow>
     title_from U s' i' p (title_from U s i p cs) = title_from U s i p cs"
proof (induction cs arbitrary: s i s' i' p)
  case Nil
  show ?case by simp
next
  case (Cons c cs)
  then have c: "c < 128" and cs: "\<forall>c\<in>set cs. c < 128" by simp_all
  from title_char_ascii[OF c, of p U s i s' i'] obtain h
    where h: "(if p then to_lower U s i c else to_title U c) = [h]"
      and hc: "is_cased U h = is_cased U c"
      and hh: "(if p then to_lower U s' i' h else to_title U h) = [h]"
    by blast
  have "title_from U s i p (c # cs) = h # title_from U s (Suc i) (is_cased U c) cs"
    using h by simp
  moreover have "title_from U s' i' p (h # title_from U s (Suc i) (is_cased U c) cs)
      = h # title_from U s' (Suc i') (is_cased U c) (title_from U s (Suc i) (is_cased U c) cs)"
    using hh hc by simp
  ultimately show ?case using Cons.IH[OF cs, of s' "Suc i'" "is_cased U c" s "Suc i"]
    by simp
qed

lemma title_from_ascii:
  "\<forall>c\<in>set cs. c < 128 \<Longrightarrow> \<forall>c\<in>set (title_from U s i p cs). c < 128"
proof (induction cs arbitrary: i p)
  case Nil
  show ?case by simp
next
  case (Cons c cs)
  then have c: "c < 128" and cs: "\<forall>c\<in>set cs. c < 128" by simp_all
  from c Cons.IH[OF cs, of "Suc i" "is_cased U c"] show ?case by auto
qed

lemma title_from_Nil_iff:
  "\<forall>c\<in>set cs. c < 128 \<Longrightarrow> title_from U s i p cs = [] \<longleftrightarrow> cs = []"
  by (cases cs) auto

lemma hd_title_from:
  "\<forall>c\<in>set cs. c < 128 \<Longrightarrow> cs \<noteq> [] \<Longrightarrow>
     is_space U (hd (title_from U s i p cs)) = is_space U (hd cs)"
  by (cases cs) (auto simp: is_space_ascii)

lemma last_title_from:
  "\<forall>c\<in>set cs. c < 128 \<Longrightarrow> cs \<noteq> [] \<Longrightarrow>
     is_space U (last (title_from U s i p cs)) = is_space U (last cs)"
proof (induction cs arbitrary: i p)
  case Nil
  then show ?case by simp
next
  case (Cons c cs)
  then have c: "c < 128" and cs: "\<forall>c\<in>set cs. c < 128" by simp_all
  show ?case
  proof (cases "cs = []")
    case True
    with c show ?thesis by (auto simp: is_space_ascii)
  next
    case False
    with cs have "title_from U s (Suc i) (is_cased U c) cs \<noteq> []"
      by (simp add: title_from_Nil_iff)
    with False c Cons.IH[OF cs False, of "Suc i" "is_cased U c"] show ?thesis by simp
  qed
qed

lemma title_idem: "\<forall>c\<in>set s. c < 128 \<Longrightarrow> title U (title U s) = title U s"
  by (simp add: title_def title_from_ascii_idem)

lemma title_ascii: "\<forall>c\<in>set s. c < 128 \<Longrightarrow> \<forall>c\<in>set (title U s). c < 128"
  by (simp add: title_def title_from_ascii)

text \<open>A text is its own strip exactly when it neither starts nor ends with white space.\<close>

lemma strip_fixed_iff:
  "strip U s = s \<longleftrightarrow> (s = [] \<or> (\<not> is_space U (hd s) \<and> \<not> is_space U (last s)))"
proof (cases "s = []")
  case True then show ?thesis by (simp add: strip_def)
next
  case False
  show ?thesis
  proof (cases "is_space U (hd s)")
    case True
    with False have "length (dropWhile (is_space U) s) < length s"
      by (cases s) (auto simp: le_imp_less_Suc length_dropWhile_le)
    moreover have "length (strip U s) \<le> length (dropWhile (is_space U) s)"
      unfolding strip_def
      using length_dropWhile_le[of "is_space U" "rev (dropWhile (is_space U) s)"] by simp
    ultimately have "strip U s \<noteq> s" by auto
    with True False show ?thesis by simp
  next
    case nh: False
    with False have d: "dropWhile (is_space U) s = s" by (cases s) auto
    show ?thesis
    proof (cases "is_space U (last s)")
      case True
      with False have "length (dropWhile (is_space U) (rev s)) < length (rev s)"
        by (cases "rev s") (auto simp: le_imp_less_Suc length_dropWhile_le last_rev hd_rev)
      then have "strip U s \<noteq> s" unfolding strip_def d
        by (metis length_rev less_irrefl)
      with True False show ?thesis by simp
    next
      case nl: False
      with False have "dropWhile (is_space U) (rev s) = rev s"
        by (cases "rev s") (auto simp: hd_rev)
      with d nh nl False show ?thesis by (simp add: strip_def)
    qed
  qed
qed

lemma strip_idem: "strip U (strip U s) = strip U s"
proof -
  let ?t = "strip U s"
  have "?t = [] \<or> (\<not> is_space U (hd ?t) \<and> \<not> is_space U (last ?t))"
  proof (cases "?t = []")
    case True then show ?thesis by simp
  next
    case False
    let ?d = "dropWhile (is_space U) s"
    let ?u = "dropWhile (is_space U) (rev ?d)"
    have u: "?u \<noteq> []" using False by (simp add: strip_def)
    then have h: "\<not> is_space U (hd ?u)" by (rule hd_dropWhile)
    have "last ?t = hd ?u" using u by (simp add: strip_def last_rev)
    then have l: "\<not> is_space U (last ?t)" using h by simp
    from u have d: "?d \<noteq> []" by (metis dropWhile.simps(1) rev.simps(1))
    then have hd: "\<not> is_space U (hd ?d)" by (rule hd_dropWhile)
    have "rev ?d = takeWhile (is_space U) (rev ?d) @ ?u" by simp
    then have "last (rev ?d) = last ?u" using u by (metis last_appendR)
    then have "last ?u = hd ?d" using d by (simp add: last_rev)
    moreover have "hd ?t = last ?u" using u by (simp add: strip_def hd_rev)
    ultimately have "\<not> is_space U (hd ?t)" using hd by simp
    with l show ?thesis by simp
  qed
  then show ?thesis by (simp add: strip_fixed_iff)
qed

lemma strip_subset: "set (strip U s) \<subseteq> set s"
proof -
  have "set (strip U s) \<subseteq> set (dropWhile (is_space U) s)"
    unfolding strip_def by (auto dest: set_dropWhileD)
  also have "\<dots> \<subseteq> set s" by (auto dest: set_dropWhileD)
  finally show ?thesis .
qed

lemma strip_title:
  assumes "\<forall>c\<in>set s. c < 128" and "strip U s = s"
  shows "strip U (title U s) = title U s"
proof (cases "s = []")
  case True
  then show ?thesis by (simp add: title_def strip_def)
next
  case False
  with assms(2) have "\<not> is_space U (hd s) \<and> \<not> is_space U (last s)"
    by (simp add: strip_fixed_iff)
  with False assms(1) show ?thesis
    by (simp add: strip_fixed_iff title_def hd_title_from last_title_from title_from_Nil_iff)
qed

lemma normalise_idem:
  assumes "\<forall>c\<in>set s. c < 128"
  shows "title U (strip U (title U (strip U s))) = title U (strip U s)"
proof -
  from assms strip_subset[of U s] have a: "\<forall>c\<in>set (strip U s). c < 128" by blast
  from strip_title[OF a strip_idem] title_idem[OF a] show ?thesis by simp
qed

lemma str_of_ascii_Unknown: "\<forall>c\<in>set (str_of ''Unknown''). c < 128"
  by (simp add: str_of_def)

section \<open>Properties of the columns\<close>

subsection \<open>Columns\<close>

lemma set_dropna: "set (dropna vs) = {v. Some v \<in> set vs}"
  by (induction vs rule: dropna.induct) auto

lemma dropna_map_Some [simp]: "dropna (map Some xs) = xs"
  by (induction xs) auto

lemma dropna_Nil_iff: "dropna vs = [] \<longleftrightarrow> (\<forall>v\<in>set vs. v = None)"
  by (induction vs rule: dropna.induct) auto

lemma astype_int_Inr:
  "astype_int vs = Inr ns \<Longrightarrow> list_all2 (\<lambda>v n. \<exists>x. v = Some x \<and> n = trunc x) vs ns"
proof (induction vs arbitrary: ns rule: astype_int.induct)
  case 1 then show ?case by simp
next
  case (2 vs) then show ?case by simp
next
  case (3 v vs) then show ?case by (auto split: sum.splits)
qed

lemma astype_int_total:
  "None \<notin> set vs \<Longrightarrow> astype_int vs = Inr (map (trunc \<circ> the) vs)"
  by (induction vs rule: astype_int.induct) auto

lemma astype_int_None:
  "None \<in> set vs \<Longrightarrow> astype_int vs = Inl ValueError"
  by (induction vs rule: astype_int.induct) (auto split: sum.splits)

lemma trunc_of_int [simp]: "trunc (of_int n) = n"
  by (simp add: trunc_def)

subsection \<open>The median lies between the values\<close>

lemma sort_Nil_iff [simp]: "sort xs = [] \<longleftrightarrow> xs = []"
  by (metis length_sort length_0_conv)

lemma median_unfold:
  "median col =
     (if dropna col = [] then None
      else if odd (length (dropna col))
      then Some (of_int (sort (dropna col) ! (length (dropna col) div 2)))
      else Some ((of_int (sort (dropna col) ! (length (dropna col) div 2 - 1))
                  + of_int (sort (dropna col) ! (length (dropna col) div 2))) / 2))"
  by (simp add: median_def Let_def)

lemma median_None_iff: "median col = None \<longleftrightarrow> dropna col = []"
  by (cases "dropna col = []"; cases "odd (length (dropna col))") (simp_all add: median_unfold)

lemma median_bounds:
  assumes "median col = Some m" and "\<forall>v\<in>set (dropna col). lo \<le> v \<and> v \<le> hi"
  shows "of_int lo \<le> m \<and> m \<le> of_int hi"
proof -
  let ?s = "sort (dropna col)"
  let ?n = "length (dropna col)"
  from assms(1) have n: "dropna col \<noteq> []" by (auto simp: median_unfold split: if_splits)
  then have n0: "0 < ?n" by simp
  have b: "lo \<le> ?s ! k \<and> ?s ! k \<le> hi" if "k < ?n" for k
  proof -
    from that have "?s ! k \<in> set (dropna col)" using nth_mem[of k ?s] by simp
    with assms(2) show ?thesis by simp
  qed
  have k1: "?n div 2 < ?n" and k2: "?n div 2 - 1 < ?n" using n0 by arith+
  show ?thesis
  proof (cases "odd ?n")
    case True
    with n assms(1) have "m = of_int (?s ! (?n div 2))" by (simp add: median_unfold)
    then show ?thesis using b[OF k1] by simp
  next
    case False
    with n assms(1) have m: "m = (of_int (?s ! (?n div 2 - 1)) + of_int (?s ! (?n div 2))) / 2"
      by (simp add: median_unfold)
    from b[OF k1] b[OF k2]
    have "(of_int lo :: rat) \<le> of_int (?s ! (?n div 2 - 1))" "(of_int (?s ! (?n div 2 - 1)) :: rat) \<le> of_int hi"
      "(of_int lo :: rat) \<le> of_int (?s ! (?n div 2))" "(of_int (?s ! (?n div 2)) :: rat) \<le> of_int hi"
      by simp_all
    with m show ?thesis by (simp add: field_simps)
  qed
qed

lemma trunc_bounds:
  assumes "of_int lo \<le> m" "m \<le> of_int hi" "0 \<le> lo"
  shows "lo \<le> trunc m \<and> trunc m \<le> hi \<and> trunc m = \<lfloor>m\<rfloor>"
proof -
  from assms(1,3) have "0 \<le> m" by (meson of_int_0_le_iff order_trans)
  then have t: "trunc m = \<lfloor>m\<rfloor>" by (simp add: trunc_def)
  from assms(1) have "lo \<le> \<lfloor>m\<rfloor>" by (simp add: le_floor_iff)
  moreover from assms(2) have "\<lfloor>m\<rfloor> \<le> hi" by (simp add: floor_le_iff)
  ultimately show ?thesis using t by simp
qed

subsection \<open>The salary column\<close>

lemma length_kept_salaries [simp]: "length (kept_salaries col) = length col"
  by (simp add: kept_salaries_def)

lemma length_kept_dates [simp]: "length (kept_dates col) = length col"
  by (simp add: kept_dates_def)

lemma set_aside_salary_Some:
  "set_aside invalid_salary w = Some v \<Longrightarrow> w = Some v \<and> SALARY_MIN \<le> v \<and> v \<le> SALARY_MAX"
  by (cases w) (auto simp: set_aside_def split: if_splits)

lemma set_aside_date_Some:
  "set_aside invalid_start_date w = Some d \<Longrightarrow> w = Some d \<and> DATE_MIN \<le> d \<and> d \<le> DATE_MAX"
  by (cases w) (auto simp: set_aside_def split: if_splits)

lemma kept_salaries_range:
  assumes "v \<in> set (dropna (kept_salaries col))"
  shows "SALARY_MIN \<le> v \<and> v \<le> SALARY_MAX"
proof -
  from assms obtain c where "set_aside invalid_salary (to_numeric c) = Some v"
    by (auto simp: set_dropna kept_salaries_def)
  then show ?thesis by (simp add: set_aside_salary_Some)
qed

lemma kept_dates_range:
  assumes "d \<in> set (dropna (kept_dates col))"
  shows "DATE_MIN \<le> d \<and> d \<le> DATE_MAX"
proof -
  from assms obtain c where "set_aside invalid_start_date (to_datetime c) = Some d"
    by (auto simp: set_dropna kept_dates_def)
  then show ?thesis by (simp add: set_aside_date_Some)
qed

text \<open>The salary column of a successful call, position by position.\<close>

lemma clean_salaries_Inr:
  assumes "clean_salaries col = Inr sals"
  shows "length sals = length col"
    and "i < length col \<Longrightarrow> kept_salaries col ! i = Some n \<Longrightarrow> sals ! i = n"
    and "i < length col \<Longrightarrow> kept_salaries col ! i = None \<Longrightarrow>
           \<exists>m. median (kept_salaries col) = Some m \<and> sals ! i = trunc m"
proof -
  let ?k = "kept_salaries col"
  let ?f = "map (\<lambda>v. fillna (median ?k) (map_option of_int v)) ?k"
  from assms have a: "astype_int ?f = Inr sals" by (simp add: clean_salaries_def Let_def)
  from astype_int_Inr[OF a] have l: "list_all2 (\<lambda>v n. \<exists>x. v = Some x \<and> n = trunc x) ?f sals" .
  then have "length ?f = length sals" by (rule list_all2_lengthD)
  then show len: "length sals = length col" by simp
  have nth: "\<exists>x. ?f ! i = Some x \<and> sals ! i = trunc x" if "i < length col" for i
    using list_all2_nthD[OF l, of i] that by simp
  { assume i: "i < length col" and k: "?k ! i = Some n"
    from nth[OF i] i k show "sals ! i = n" by auto }
  { assume i: "i < length col" and k: "?k ! i = None"
    from nth[OF i] i k show "\<exists>m. median ?k = Some m \<and> sals ! i = trunc m" by auto }
qed

lemma clean_salaries_total:
  assumes "dropna (kept_salaries col) \<noteq> []"
  shows "\<exists>sals. clean_salaries col = Inr sals"
proof -
  let ?k = "kept_salaries col"
  from assms obtain m where m: "median ?k = Some m"
    using median_None_iff[of ?k] by (cases "median ?k") auto
  have "fillna (Some m) (map_option of_int v) \<noteq> (None :: rat option)" for v :: "int option"
    by (cases v) auto
  then have "None \<notin> set (map (\<lambda>v. fillna (median ?k) (map_option of_int v)) ?k)"
    unfolding m by (metis (no_types, lifting) imageE list.set_map)
  from astype_int_total[OF this] show ?thesis by (simp add: clean_salaries_def Let_def)
qed

lemma clean_salaries_error:
  assumes "col \<noteq> []" and "dropna (kept_salaries col) = []"
  shows "clean_salaries col = Inl ValueError"
proof -
  let ?k = "kept_salaries col"
  from assms(2) have m: "median ?k = None" by (simp add: median_None_iff)
  from assms(1) have "?k \<noteq> []" by (simp add: kept_salaries_def)
  then obtain v where v: "v \<in> set ?k" by (cases ?k) auto
  with assms(2) have "v = None" by (simp add: dropna_Nil_iff)
  with v m have "None \<in> set (map (\<lambda>v. fillna (median ?k) (map_option of_int v)) ?k)"
    by force
  from astype_int_None[OF this] show ?thesis by (simp add: clean_salaries_def Let_def)
qed

lemma clean_salaries_range:
  assumes "clean_salaries col = Inr sals" and "n \<in> set sals"
  shows "SALARY_MIN \<le> n \<and> n \<le> SALARY_MAX"
proof -
  from assms(2) obtain i where i: "i < length sals" and n: "sals ! i = n"
    by (auto simp: in_set_conv_nth)
  from clean_salaries_Inr(1)[OF assms(1)] i have ic: "i < length col" by simp
  show ?thesis
  proof (cases "kept_salaries col ! i")
    case None
    from clean_salaries_Inr(3)[OF assms(1) ic None] obtain m
      where m: "median (kept_salaries col) = Some m" and s: "sals ! i = trunc m" by blast
    have "of_int SALARY_MIN \<le> m \<and> m \<le> of_int SALARY_MAX"
      by (rule median_bounds[OF m]) (simp add: kept_salaries_range)
    then have "SALARY_MIN \<le> trunc m \<and> trunc m \<le> SALARY_MAX"
      using trunc_bounds[of SALARY_MIN m SALARY_MAX] by (simp add: SALARY_MIN_def)
    with s n show ?thesis by simp
  next
    case (Some k)
    from clean_salaries_Inr(2)[OF assms(1) ic Some] n have "k = n" by simp
    moreover have "k \<in> set (dropna (kept_salaries col))"
      using Some ic by (auto simp: set_dropna in_set_conv_nth)
    ultimately show ?thesis using kept_salaries_range by blast
  qed
qed

subsection \<open>The mode and the date column\<close>

lemma fold_max_counts:
  fixes ns :: "nat list"
  shows "fold max ns 0 = Max (set (0 # ns))"
  by (simp only: Max.set_eq_fold)

lemma sorted_hd_le: "sorted xs \<Longrightarrow> x \<in> set xs \<Longrightarrow> hd xs \<le> x"
  by (cases xs) auto

lemma mode_props:
  assumes "dropna col \<noteq> []"
  shows "hd (mode col) \<in> set (dropna col)"
    and "d \<in> set (dropna col) \<Longrightarrow>
           count_list (dropna col) d \<le> count_list (dropna col) (hd (mode col))"
    and "d \<in> set (dropna col) \<Longrightarrow>
           count_list (dropna col) d = count_list (dropna col) (hd (mode col)) \<Longrightarrow>
           hd (mode col) \<le> d"
proof -
  let ?ds = "dropna col"
  let ?m = "Max (set (0 # map (count_list ?ds) ?ds))"
  let ?F = "filter (\<lambda>d. count_list ?ds d = ?m) ?ds"
  have mode: "mode col = sort (remdups ?F)"
    by (simp only: mode_def Let_def fold_max_counts)
  have ge: "count_list ?ds x \<le> ?m" if "x \<in> set ?ds" for x
    using that by (intro Max_ge) auto
  from assms obtain x0 where x0: "x0 \<in> set ?ds" by (cases ?ds) auto
  then have "count_list ?ds x0 \<noteq> 0" by (simp only: count_list_0_iff) simp
  then have "0 < count_list ?ds x0" by simp
  with ge[OF x0] have pos: "0 < ?m" by linarith
  have "?m \<in> set (0 # map (count_list ?ds) ?ds)" by (intro Max_in) auto
  with pos obtain x1 where x1: "x1 \<in> set ?ds" "count_list ?ds x1 = ?m" by auto
  then have ne: "?F \<noteq> []" by (auto simp: filter_empty_conv)
  then have "mode col \<noteq> []" by (simp add: mode)
  then have "hd (mode col) \<in> set (mode col)" by (rule hd_in_set)
  then have h: "hd (mode col) \<in> set ?F" by (simp add: mode)
  then show "hd (mode col) \<in> set ?ds" by simp
  from h have hm: "count_list ?ds (hd (mode col)) = ?m" by simp
  { assume "d \<in> set ?ds"
    from ge[OF this] hm show "count_list ?ds d \<le> count_list ?ds (hd (mode col))" by simp }
  { assume d: "d \<in> set ?ds" and c: "count_list ?ds d = count_list ?ds (hd (mode col))"
    then have "d \<in> set (mode col)" using hm by (simp add: mode)
    moreover have "sorted (mode col)" by (simp add: mode)
    ultimately show "hd (mode col) \<le> d" by (rule sorted_hd_le[rotated]) }
qed

lemma DEFAULT_DATE_range: "DATE_MIN \<le> DEFAULT_DATE \<and> DEFAULT_DATE \<le> DATE_MAX"
  by (simp add: DATE_MIN_def DATE_MAX_def DEFAULT_DATE_def)

lemma fill_dt_range: "DATE_MIN \<le> fill_dt (kept_dates col) \<and> fill_dt (kept_dates col) \<le> DATE_MAX"
proof (cases "dropna (kept_dates col) = []")
  case True
  then show ?thesis using DEFAULT_DATE_range by (simp add: fill_dt_def)
next
  case False
  from mode_props(1)[OF False] kept_dates_range show ?thesis
    using False by (simp add: fill_dt_def)
qed

text \<open>The date column of a successful call.\<close>

lemma clean_dates_Inr:
  assumes "clean_dates col = Inr dts"
  shows "length dts = length col"
    and "i < length col \<Longrightarrow>
           dts ! i = (case kept_dates col ! i of None \<Rightarrow> fill_dt (kept_dates col) | Some d \<Rightarrow> d)"
    and "col = [] \<or> \<not> list_all (\<lambda>c. to_datetime c = None) col"
  using assms by (auto simp: clean_dates_def Let_def split: if_splits)

lemma clean_dates_total:
  "col = [] \<or> \<not> list_all (\<lambda>c. to_datetime c = None) col \<Longrightarrow> \<exists>dts. clean_dates col = Inr dts"
  by (auto simp: clean_dates_def Let_def)

lemma clean_dates_range:
  assumes "clean_dates col = Inr dts" and "i < length col"
  shows "DATE_MIN \<le> dts ! i \<and> dts ! i \<le> DATE_MAX"
proof (cases "kept_dates col ! i")
  case None
  with assms show ?thesis using fill_dt_range by (simp add: clean_dates_Inr(2))
next
  case (Some d)
  with assms(2) have "d \<in> set (dropna (kept_dates col))"
    by (auto simp: set_dropna in_set_conv_nth)
  with Some assms show ?thesis using kept_dates_range by (simp add: clean_dates_Inr(2))
qed

section \<open>The rows of a cleaned batch\<close>

lemma clean_row_sel [simp]:
  "employee_id (clean_row U r sal dt) = employee_id r"
  "name (clean_row U r sal dt) = Some (case name r of None \<Rightarrow> str_of ''Unknown'' | Some s \<Rightarrow> s)"
  "position (clean_row U r sal dt) =
     Some (title U (strip U (case position r of None \<Rightarrow> str_of ''Unknown'' | Some s \<Rightarrow> s)))"
  "start_date (clean_row U r sal dt) = Val dt"
  "salary (clean_row U r sal dt) = Val sal"
  "department_id (clean_row U r sal dt) = department_id r"
  "is_dirty (clean_row U r sal dt) = is_dirty r"
  "issue_missing_name (clean_row U r sal dt) = (name r = None)"
  "issue_missing_position (clean_row U r sal dt) = (position r = None)"
  "issue_missing_start_date (clean_row U r sal dt) = isna (start_date r)"
  "issue_missing_salary (clean_row U r sal dt) = isna (salary r)"
  "issue_invalid_salary (clean_row U r sal dt) = invalid_salary (to_numeric (salary r))"
  "issue_invalid_start_date (clean_row U r sal dt) = invalid_start_date (to_datetime (start_date r))"
  "has_any_issue (clean_row U r sal dt) =
     (name r = None \<or> position r = None \<or> isna (start_date r) \<or> isna (salary r)
      \<or> invalid_salary (to_numeric (salary r)) \<or> invalid_start_date (to_datetime (start_date r)))"
  by (simp_all add: clean_row_def Let_def)

lemma clean_Inr_rows:
  assumes "clean U df = Inr out"
  shows "\<exists>sals dts. clean_salaries (map salary df) = Inr sals
           \<and> clean_dates (map start_date df) = Inr dts
           \<and> length out = length df
           \<and> (\<forall>i<length df. out ! i = clean_row U (df ! i) (sals ! i) (dts ! i))"
proof -
  from assms obtain sals dts where s: "clean_salaries (map salary df) = Inr sals"
    and d: "clean_dates (map start_date df) = Inr dts"
    and o: "out = map (\<lambda>(r, sal, dt). clean_row U r sal dt) (zip df (zip sals dts))"
    by (auto simp: clean_def split: sum.splits)
  from clean_salaries_Inr(1)[OF s] have ls: "length sals = length df" by simp
  from clean_dates_Inr(1)[OF d] have ld: "length dts = length df" by simp
  from o ls ld have "length out = length df" by simp
  moreover have "out ! i = clean_row U (df ! i) (sals ! i) (dts ! i)"
    if "i < length df" for i using that o ls ld by simp
  ultimately show ?thesis using s d by blast
qed

lemma clean_error:
  "df \<noteq> [] \<Longrightarrow> dropna (kept_salaries (map salary df)) = [] \<Longrightarrow> clean U df = Inl ValueError"
  by (simp add: clean_def clean_salaries_error)

lemma isna_iff: "isna c \<longleftrightarrow> c = NA"
  by (cases c) simp_all

lemma invalid_salary_iff:
  "invalid_salary (to_numeric c) \<longleftrightarrow> (\<exists>n. c = Val n \<and> (n < 60000 \<or> 200000 < n))"
  by (cases c) (simp_all add: SALARY_MIN_def SALARY_MAX_def)

lemma invalid_start_date_iff:
  "invalid_start_date (to_datetime c) \<longleftrightarrow> (\<exists>d. c = Val d \<and> (d < (2015, 1, 1) \<or> (2024, 12, 31) < d))"
  by (cases c) (simp_all add: DATE_MIN_def DATE_MAX_def)

text \<open>The salaries that stay after line 30 are the values that coerce to a number within
  the bounds, in batch order.\<close>

lemma dropna_kept_salaries:
  "dropna (kept_salaries col) = [n. Val n \<leftarrow> col, 60000 \<le> n \<and> n \<le> 200000]"
proof (induction col)
  case Nil
  show ?case by (simp add: kept_salaries_def)
next
  case (Cons c col)
  then show ?case
    by (cases c) (auto simp: kept_salaries_def set_aside_def SALARY_MIN_def SALARY_MAX_def)
qed

lemma dropna_kept_dates:
  "dropna (kept_dates col) = [d. Val d \<leftarrow> col, (2015, 1, 1) \<le> d \<and> d \<le> (2024, 12, 31)]"
proof (induction col)
  case Nil
  show ?case by (simp add: kept_dates_def)
next
  case (Cons c col)
  then show ?case
    by (cases c) (auto simp: kept_dates_def set_aside_def DATE_MIN_def DATE_MAX_def)
qed

section \<open>Salary flags, median and mode imputation\<close>

lemma clean_example_batch: "clean unicode_excerpt example_batch = Inr example_cleaned"
  unfolding example_batch_def example_cleaned_def by code_simp

text \<open>
  Claim C9, amended. A batch that has rows but no salary that coerces to a number within
  60000 and 200000 makes \<open>clean\<close> raise: the median of no value is a null, the rows stay
  null after \<open>fillna\<close>, and the cast to integer raises \<open>ValueError\<close>.
\<close>

theorem clean_no_valid_salary_raises:
  assumes "df \<noteq> []"
    and "\<forall>r\<in>set df. \<forall>n. salary r = Val n \<longrightarrow> n < 60000 \<or> 200000 < n"
  shows "clean U df = Inl ValueError"
proof -
  have "v = None" if "v \<in> set (kept_salaries (map salary df))" for v
  proof -
    from that obtain r where r: "r \<in> set df"
      and v: "v = set_aside invalid_salary (to_numeric (salary r))"
      by (auto simp: kept_salaries_def)
    show ?thesis
    proof (cases "salary r")
      case (Val n)
      with assms(2) r have "n < 60000 \<or> 200000 < n" by blast
      with v Val show ?thesis by (simp add: set_aside_def SALARY_MIN_def SALARY_MAX_def)
    qed (simp_all add: v set_aside_def)
  qed
  then have "dropna (kept_salaries (map salary df)) = []" by (simp add: dropna_Nil_iff)
  with assms(1) show ?thesis by (rule clean_error)
qed

theorem clean_no_valid_salary_raises_witness:
  "clean unicode_excerpt
     [\<lparr>employee_id = Val 1, name = Some (str_of ''Ada''), position = Some (str_of ''Data Analyst''),
        start_date = Val (2016, 1, 1), salary = Val 500000, department_id = NA,
        is_dirty = True\<rparr>,
      \<lparr>employee_id = Val 2, name = None, position = None,
        start_date = NA, salary = NA, department_id = NA, is_dirty = True\<rparr>]
   = Inl ValueError"
  by (rule clean_no_valid_salary_raises) simp_all

theorem clean_empty_batch_returns: "clean unicode_excerpt ([] :: employee_row list) = Inr []"
  by (simp add: clean_def clean_salaries_def kept_salaries_def clean_dates_def kept_dates_def median_def)

text \<open>
  Claim C8, amended. For every row of a cleaned batch, \<open>issue_missing_salary\<close> is true
  exactly when the raw salary is a null, and \<open>issue_invalid_salary\<close> is true exactly when
  the raw salary coerces to a number below 60000 or above 200000: the range check is on
  the coerced value. A salary that fails the coercion is not a null of the raw column, so
  it gets neither flag.
\<close>

theorem salary_flags:
  assumes "clean U df = Inr out" and "i < length df"
  shows "issue_missing_salary (out ! i) = (salary (df ! i) = NA)
       \<and> issue_invalid_salary (out ! i)
           = (\<exists>n. salary (df ! i) = Val n \<and> (n < 60000 \<or> 200000 < n))"
proof -
  from clean_Inr_rows[OF assms(1)] assms(2) obtain sal dt where
    "out ! i = clean_row U (df ! i) sal dt"
    by blast
  then show ?thesis by (auto simp: isna_iff invalid_salary_iff)
qed

theorem salary_flags_witness:
  "clean unicode_excerpt example_batch = Inr example_cleaned \<and> 3 < length example_batch
   \<and> issue_missing_salary (example_cleaned ! 3) \<and> \<not> issue_invalid_salary (example_cleaned ! 3)"
  using salary_flags[OF clean_example_batch, of 3] clean_example_batch
  by (simp add: example_batch_def)

text \<open>A salary that cannot be parsed is not recorded as missing: in the batch of an
  unparseable salary and the salary 70000, both rows have \<open>issue_missing_salary\<close> false
  (and the first row gets the median 70000).\<close>

theorem unparseable_salary_not_flagged_missing:
  "map_sum id (map (\<lambda>c. (issue_missing_salary c, issue_invalid_salary c, salary c)))
     (clean unicode_excerpt
        [\<lparr>employee_id = Val 1, name = Some (str_of ''Ada''),
           position = Some (str_of ''Data Analyst''),
           start_date = Val (2016, 1, 1), salary = Unparseable, department_id = NA,
           is_dirty = True\<rparr>,
         \<lparr>employee_id = Val 2, name = Some (str_of ''Bob''),
           position = Some (str_of ''Qa Engineer''),
           start_date = Val (2016, 1, 1), salary = Val 70000, department_id = NA,
           is_dirty = False\<rparr>])
   = Inr [(False, False, Val 70000), (False, False, Val 70000)]"
  by code_simp

text \<open>
  Claim C4, amended. In a cleaned batch every row whose salary is flagged missing or invalid
  has the median of the remaining salaries of the batch (those that coerce to a number within
  60000 and 200000) with its fraction dropped: a median \<open>k + 1/2\<close> becomes \<open>k\<close>.
\<close>

theorem median_imputation:
  assumes "clean U df = Inr out" and "i < length df"
    and "issue_missing_salary (out ! i) \<or> issue_invalid_salary (out ! i)"
  shows "\<exists>m. median (map Some [n. Val n \<leftarrow> map salary df, 60000 \<le> n \<and> n \<le> 200000]) = Some m
           \<and> salary (out ! i) = Val \<lfloor>m\<rfloor>"
proof -
  let ?col = "map salary df"
  from clean_Inr_rows[OF assms(1)] assms(2) obtain sals dts
    where s: "clean_salaries ?col = Inr sals"
      and o: "out ! i = clean_row U (df ! i) (sals ! i) (dts ! i)"
    by blast
  from assms(3) o have "to_numeric (salary (df ! i)) = None \<or> invalid_salary (to_numeric (salary (df ! i)))"
    by (cases "salary (df ! i)") auto
  then have k: "kept_salaries ?col ! i = None"
    using assms(2) by (auto simp: kept_salaries_def set_aside_def)
  from clean_salaries_Inr(3)[OF s _ k] assms(2) obtain m
    where m: "median (kept_salaries ?col) = Some m" and si: "sals ! i = trunc m" by auto
  have "of_int SALARY_MIN \<le> m \<and> m \<le> of_int SALARY_MAX"
    by (rule median_bounds[OF m]) (simp add: kept_salaries_range)
  then have t: "trunc m = \<lfloor>m\<rfloor>"
    using trunc_bounds[of SALARY_MIN m SALARY_MAX] by (simp add: SALARY_MIN_def)
  have "median (map Some (dropna (kept_salaries ?col))) = median (kept_salaries ?col)"
    by (simp add: median_def)
  with m have "median (map Some [n. Val n \<leftarrow> ?col, 60000 \<le> n \<and> n \<le> 200000]) = Some m"
    by (simp only: dropna_kept_salaries)
  with o si t show ?thesis by simp
qed

theorem median_imputation_witness:
  "clean unicode_excerpt example_batch = Inr example_cleaned
   \<and> issue_invalid_salary (example_cleaned ! 2) \<and> issue_missing_salary (example_cleaned ! 3)
   \<and> salary (example_cleaned ! 2) = Val 75000 \<and> salary (example_cleaned ! 3) = Val 75000
   \<and> (\<exists>m. median (map Some [n. Val n \<leftarrow> map salary example_batch, 60000 \<le> n \<and> n \<le> 200000]) = Some m
           \<and> salary (example_cleaned ! 3) = Val \<lfloor>m\<rfloor>)"
proof -
  have "3 < length example_batch" by (simp add: example_batch_def)
  moreover have "issue_missing_salary (example_cleaned ! 3) \<or> issue_invalid_salary (example_cleaned ! 3)"
    by (simp add: example_cleaned_def)
  ultimately show ?thesis
    using median_imputation[OF clean_example_batch, of 3] clean_example_batch
    by (simp add: example_cleaned_def)
qed

text \<open>The median is not rounded to the nearest integer: with the valid salaries 70001 and
  70002 the median is 70001.5, which rounds to 70002, and the row without a salary gets
  70001.\<close>

theorem median_fraction_dropped:
  "map_sum id (map salary)
     (clean unicode_excerpt
        [\<lparr>employee_id = Val 1, name = Some (str_of ''Ada''),
           position = Some (str_of ''Data Analyst''),
           start_date = Val (2016, 1, 1), salary = Val 70001, department_id = NA,
           is_dirty = False\<rparr>,
         \<lparr>employee_id = Val 2, name = Some (str_of ''Bob''),
           position = Some (str_of ''Qa Engineer''),
           start_date = Val (2016, 1, 1), salary = Val 70002, department_id = NA,
           is_dirty = False\<rparr>,
         \<lparr>employee_id = Val 3, name = Some (str_of ''Cy''), position = Some (str_of ''Chef''),
           start_date = Val (2016, 1, 1), salary = NA, department_id = NA,
           is_dirty = True\<rparr>])
   = Inr [Val 70001, Val 70002, Val 70001]
   \<and> median [Some 70001, Some 70002] = Some (140003 / 2)
   \<and> round (140003 / 2 :: rat) = 70002"
  by code_simp

text \<open>
  Claim C5, amended. In a cleaned batch every row whose start date is a null, cannot be
  parsed or lies outside 2015-01-01 to 2024-12-31 has the fill date of the batch: the date
  2019-01-01 when no date of the batch is valid, and otherwise a valid date of the batch
  that no other one exceeds in frequency and that is the earliest of the most frequent ones.
\<close>

theorem mode_imputation:
  assumes "clean U df = Inr out" and "i < length df"
    and "\<not> (\<exists>d. start_date (df ! i) = Val d \<and> (2015, 1, 1) \<le> d \<and> d \<le> (2024, 12, 31))"
  shows "let valid = [d. Val d \<leftarrow> map start_date df, (2015, 1, 1) \<le> d \<and> d \<le> (2024, 12, 31)]
         in \<exists>f. start_date (out ! i) = Val f
              \<and> (if valid = [] then f = (2019, 1, 1)
                  else f \<in> set valid
                     \<and> list_all (\<lambda>d. count_list valid d \<le> count_list valid f) valid
                     \<and> list_all (\<lambda>d. count_list valid d < count_list valid f \<or> f \<le> d) valid)"
proof -
  let ?col = "map start_date df"
  let ?valid = "dropna (kept_dates ?col)"
  let ?f = "fill_dt (kept_dates ?col)"
  from clean_Inr_rows[OF assms(1)] assms(2) obtain sals dts
    where d: "clean_dates ?col = Inr dts"
      and o: "out ! i = clean_row U (df ! i) (sals ! i) (dts ! i)"
    by blast
  from assms(3) have "kept_dates ?col ! i = None"
    using assms(2)
    by (cases "start_date (df ! i)")
       (auto simp: kept_dates_def set_aside_def DATE_MIN_def DATE_MAX_def)
  with assms(2) have "dts ! i = ?f" by (simp add: clean_dates_Inr(2)[OF d])
  with o have sd: "start_date (out ! i) = Val ?f" by simp
  have "if ?valid = [] then ?f = (2019, 1, 1)
        else ?f \<in> set ?valid
           \<and> list_all (\<lambda>d. count_list ?valid d \<le> count_list ?valid ?f) ?valid
           \<and> list_all (\<lambda>d. count_list ?valid d < count_list ?valid ?f \<or> ?f \<le> d) ?valid"
  proof (cases "?valid = []")
    case True
    then show ?thesis by (simp add: fill_dt_def DEFAULT_DATE_def)
  next
    case False
    then have f: "?f = hd (mode (kept_dates ?col))" by (simp add: fill_dt_def)
    note mp = mode_props[OF False]
    have "count_list ?valid d < count_list ?valid ?f \<or> ?f \<le> d" if "d \<in> set ?valid" for d
      using mp(2)[OF that] mp(3)[OF that] unfolding f by linarith
    with False mp(1) mp(2) show ?thesis unfolding f by (simp add: list_all_iff)
  qed
  with sd show ?thesis by (simp only: Let_def dropna_kept_dates) blast
qed

theorem mode_imputation_witness:
  "clean unicode_excerpt example_batch = Inr example_cleaned \<and> 3 < length example_batch
   \<and> start_date (example_batch ! 3) = NA
   \<and> [d. Val d \<leftarrow> map start_date example_batch, (2015, 1, 1) \<le> d \<and> d \<le> (2024, 12, 31)]
       = [(2016, 1, 1), (2016, 1, 1), (2020, 5, 5)]
   \<and> start_date (example_cleaned ! 3) = Val (2016, 1, 1)"
proof -
  have "3 < length example_batch" and "start_date (example_batch ! 3) = NA"
    by (simp_all add: example_batch_def)
  then show ?thesis
    using mode_imputation[OF clean_example_batch, of 3] clean_example_batch
    by (simp add: example_batch_def example_cleaned_def)
qed

text \<open>A tie between the most frequent dates is not broken by the batch order: with the
  dates 2020-05-05, 2016-01-01 and a null, each valid date occurring once, the null row gets
  2016-01-01 although 2020-05-05 comes first.\<close>

theorem mode_tie_takes_earliest_date:
  "map_sum id (map start_date)
     (clean unicode_excerpt
        [\<lparr>employee_id = Val 1, name = Some (str_of ''Ada''),
           position = Some (str_of ''Data Analyst''),
           start_date = Val (2020, 5, 5), salary = Val 70000, department_id = NA,
           is_dirty = False\<rparr>,
         \<lparr>employee_id = Val 2, name = Some (str_of ''Bob''),
           position = Some (str_of ''Qa Engineer''),
           start_date = Val (2016, 1, 1), salary = Val 80000, department_id = NA,
           is_dirty = False\<rparr>,
         \<lparr>employee_id = Val 3, name = Some (str_of ''Cy''), position = Some (str_of ''Chef''),
           start_date = NA, salary = Val 90000, department_id = NA,
           is_dirty = True\<rparr>])
   = Inr [Val (2020, 5, 5), Val (2016, 1, 1), Val (2016, 1, 1)]"
  by code_simp

section \<open>The invariant of the cleaned batch\<close>

text \<open>
  Claim C3, amended. For every batch with at least one salary that coerces to a number
  within 60000 and 200000, every record that \<open>clean\<close> produces has a salary within 60000
  and 200000, a start date within 2015-01-01 and 2024-12-31, and a name and a position that
  are not null. A field is flagged as missing exactly when it is a null of the raw batch.
  A null name is replaced by \<open>Unknown\<close> and any other name, the empty text too, is kept
  as it is; the position is the strip and title case of the raw position, of \<open>Unknown\<close>
  when that is a null.
\<close>

theorem clean_invariant:
  assumes "\<exists>r\<in>set df. \<exists>n. salary r = Val n \<and> 60000 \<le> n \<and> n \<le> 200000"
    and "clean U df = Inr out"
  shows "list_all2 (\<lambda>r c.
             (\<exists>n. salary c = Val n \<and> 60000 \<le> n \<and> n \<le> 200000)
           \<and> (\<exists>d. start_date c = Val d \<and> (2015, 1, 1) \<le> d \<and> d \<le> (2024, 12, 31))
           \<and> name c = Some (case name r of None \<Rightarrow> str_of ''Unknown'' | Some s \<Rightarrow> s)
           \<and> position c = Some (title U (strip U
                 (case position r of None \<Rightarrow> str_of ''Unknown'' | Some s \<Rightarrow> s)))
           \<and> issue_missing_name c = (name r = None)
           \<and> issue_missing_position c = (position r = None)
           \<and> issue_missing_start_date c = (start_date r = NA)
           \<and> issue_missing_salary c = (salary r = NA)) df out"
proof -
  from clean_Inr_rows[OF assms(2)] obtain sals dts
    where s: "clean_salaries (map salary df) = Inr sals"
      and d: "clean_dates (map start_date df) = Inr dts"
      and len: "length out = length df"
      and nth: "\<And>i. i < length df \<Longrightarrow> out ! i = clean_row U (df ! i) (sals ! i) (dts ! i)"
    by blast
  from clean_salaries_Inr(1)[OF s] have ls: "length sals = length df" by simp
  have "(\<exists>n. salary (out ! i) = Val n \<and> 60000 \<le> n \<and> n \<le> 200000)
           \<and> (\<exists>d. start_date (out ! i) = Val d \<and> (2015, 1, 1) \<le> d \<and> d \<le> (2024, 12, 31))
           \<and> name (out ! i) = Some (case name (df ! i) of None \<Rightarrow> str_of ''Unknown'' | Some s \<Rightarrow> s)
           \<and> position (out ! i) = Some (title U (strip U
                 (case position (df ! i) of None \<Rightarrow> str_of ''Unknown'' | Some s \<Rightarrow> s)))
           \<and> issue_missing_name (out ! i) = (name (df ! i) = None)
           \<and> issue_missing_position (out ! i) = (position (df ! i) = None)
           \<and> issue_missing_start_date (out ! i) = (start_date (df ! i) = NA)
           \<and> issue_missing_salary (out ! i) = (salary (df ! i) = NA)" if i: "i < length df" for i
  proof -
    from i ls have "sals ! i \<in> set sals" by simp
    from clean_salaries_range[OF s this]
    have sr: "60000 \<le> sals ! i \<and> sals ! i \<le> 200000"
      by (simp add: SALARY_MIN_def SALARY_MAX_def)
    from i have "DATE_MIN \<le> dts ! i \<and> dts ! i \<le> DATE_MAX"
      by (intro clean_dates_range[OF d]) simp
    then have dr: "(2015, 1, 1) \<le> dts ! i \<and> dts ! i \<le> (2024, 12, 31)"
      by (simp only: DATE_MIN_def DATE_MAX_def)
    from sr dr show ?thesis unfolding nth[OF i]
      by (simp add: isna_iff del: less_eq_prod_simp)
  qed
  with len show ?thesis by (intro list_all2_all_nthI) simp_all
qed

theorem clean_invariant_witness:
  "salary (example_batch ! 0) = Val 70000
   \<and> clean unicode_excerpt example_batch = Inr example_cleaned
   \<and> map salary example_cleaned = [Val 70000, Val 80000, Val 75000, Val 75000]
   \<and> map start_date example_cleaned
       = [Val (2016, 1, 1), Val (2016, 1, 1), Val (2020, 5, 5), Val (2016, 1, 1)]
   \<and> map name example_cleaned
       = [Some (str_of ''Ada''), Some (str_of ''Unknown''), Some (str_of ''Bob''),
          Some (str_of ''Cy'')]
   \<and> map issue_missing_name example_cleaned = [False, True, False, False]
   \<and> list_all2 (\<lambda>r c. issue_missing_position c = (position r = None)
                     \<and> issue_missing_salary c = (salary r = NA))
        example_batch example_cleaned"
proof -
  have "\<exists>r\<in>set example_batch. \<exists>n. salary r = Val n \<and> 60000 \<le> n \<and> n \<le> 200000"
    by (simp add: example_batch_def)
  from clean_invariant[OF this clean_example_batch]
  have "list_all2 (\<lambda>r c. issue_missing_position c = (position r = None)
                     \<and> issue_missing_salary c = (salary r = NA))
        example_batch example_cleaned"
    by (rule list_all2_mono) blast
  with clean_example_batch show ?thesis
    by (simp add: example_batch_def example_cleaned_def)
qed

text \<open>An empty name is not a null: it is neither flagged nor replaced, and the cleaned
  record has an empty name; a position of one blank is not flagged either and is stripped to
  the empty text.\<close>

theorem empty_name_stays_empty:
  "map_sum id (map (\<lambda>c. (name c, position c, issue_missing_name c, issue_missing_position c, salary c)))
     (clean unicode_excerpt
        [\<lparr>employee_id = Val 1, name = Some [], position = Some (str_of '' ''),
           start_date = Val (2016, 1, 1), salary = Val 70000, department_id = NA,
           is_dirty = True\<rparr>])
   = Inr [(Some [], Some [], False, False, Val 70000)]"
  by code_simp

section \<open>Cleaning a cleaned batch\<close>

lemma astype_int_of_int: "astype_int (map (\<lambda>n. Some (of_int n)) ns) = Inr ns"
  by (induction ns) simp_all

lemma clean_salaries_valid:
  assumes "\<forall>n\<in>set ns. SALARY_MIN \<le> n \<and> n \<le> SALARY_MAX"
  shows "clean_salaries (map Val ns) = Inr ns"
proof -
  have "kept_salaries (map Val ns) = map Some ns"
    using assms by (induction ns) (simp_all add: kept_salaries_def set_aside_def)
  then show ?thesis
    by (simp add: clean_salaries_def Let_def comp_def astype_int_of_int)
qed

lemma clean_dates_valid:
  assumes "\<forall>d\<in>set ds. DATE_MIN \<le> d \<and> d \<le> DATE_MAX"
  shows "clean_dates (map Val ds) = Inr ds"
proof -
  have k: "kept_dates (map Val ds) = map Some ds"
    using assms by (induction ds) (auto simp: kept_dates_def set_aside_def)
  have "ds = [] \<or> \<not> list_all (\<lambda>c. to_datetime c = None) (map Val ds)"
    by (cases ds) simp_all
  with k show ?thesis
    by (auto simp add: clean_dates_def Let_def comp_def)
qed

text \<open>
  Claim C10, amended. A batch that \<open>clean\<close> has produced is cleaned again without error,
  row for row. The second pass leaves the identifier, the name, the start date, the salary,
  the department and the dirty mark of every record as they are, and every \<open>issue\<close> flag and
  \<open>has_any_issue\<close> of the second pass are false. It leaves the position as it is when the
  raw position is ASCII text or a null; the title case of other text need not be a fixed
  point of the title case.
\<close>

theorem clean_idempotent:
  assumes "clean U df = Inr out"
  shows "\<exists>out2. clean U out = Inr out2 \<and> length out2 = length out
           \<and> (\<forall>i<length out.
                 employee_id (out2 ! i) = employee_id (out ! i)
               \<and> name (out2 ! i) = name (out ! i)
               \<and> start_date (out2 ! i) = start_date (out ! i)
               \<and> salary (out2 ! i) = salary (out ! i)
               \<and> department_id (out2 ! i) = department_id (out ! i)
               \<and> is_dirty (out2 ! i) = is_dirty (out ! i)
               \<and> \<not> issue_missing_name (out2 ! i) \<and> \<not> issue_missing_position (out2 ! i)
               \<and> \<not> issue_missing_start_date (out2 ! i) \<and> \<not> issue_missing_salary (out2 ! i)
               \<and> \<not> issue_invalid_salary (out2 ! i) \<and> \<not> issue_invalid_start_date (out2 ! i)
               \<and> \<not> has_any_issue (out2 ! i)
               \<and> ((\<forall>s. position (df ! i) = Some s \<longrightarrow> (\<forall>c\<in>set s. c < 128))
                    \<longrightarrow> position (out2 ! i) = position (out ! i)))"
proof -
  from clean_Inr_rows[OF assms] obtain sals dts
    where s: "clean_salaries (map salary df) = Inr sals"
      and d: "clean_dates (map start_date df) = Inr dts"
      and len: "length out = length df"
      and nth: "\<And>i. i < length df \<Longrightarrow> out ! i = clean_row U (df ! i) (sals ! i) (dts ! i)"
    by blast
  from clean_salaries_Inr(1)[OF s] have ls: "length sals = length df" by simp
  from clean_dates_Inr(1)[OF d] have ld: "length dts = length df" by simp
  have sr: "\<forall>n\<in>set sals. SALARY_MIN \<le> n \<and> n \<le> SALARY_MAX"
    using clean_salaries_range[OF s] by blast
  have dr: "\<forall>d\<in>set dts. DATE_MIN \<le> d \<and> d \<le> DATE_MAX"
  proof
    fix x assume "x \<in> set dts"
    then obtain i where "i < length (map start_date df)" and "dts ! i = x"
      using ld by (auto simp: in_set_conv_nth)
    then show "DATE_MIN \<le> x \<and> x \<le> DATE_MAX"
      using clean_dates_range[OF d, of i] by blast
  qed
  have "map salary out = map Val sals"
    using len ls nth by (intro nth_equalityI) simp_all
  then have s2: "clean_salaries (map salary out) = Inr sals"
    using clean_salaries_valid[OF sr] by simp
  have "map start_date out = map Val dts"
    using len ld nth by (intro nth_equalityI) simp_all
  then have d2: "clean_dates (map start_date out) = Inr dts"
    using clean_dates_valid[OF dr] by simp
  let ?out2 = "map (\<lambda>(r, sal, dt). clean_row U r sal dt) (zip out (zip sals dts))"
  from s2 d2 have c2: "clean U out = Inr ?out2" by (simp add: clean_def)
  have l2: "length ?out2 = length out" using len ls ld by simp
  have row: "employee_id (?out2 ! i) = employee_id (out ! i)
       \<and> name (?out2 ! i) = name (out ! i)
       \<and> start_date (?out2 ! i) = start_date (out ! i)
       \<and> salary (?out2 ! i) = salary (out ! i)
       \<and> department_id (?out2 ! i) = department_id (out ! i)
       \<and> is_dirty (?out2 ! i) = is_dirty (out ! i)
       \<and> \<not> issue_missing_name (?out2 ! i) \<and> \<not> issue_missing_position (?out2 ! i)
       \<and> \<not> issue_missing_start_date (?out2 ! i) \<and> \<not> issue_missing_salary (?out2 ! i)
       \<and> \<not> issue_invalid_salary (?out2 ! i) \<and> \<not> issue_invalid_start_date (?out2 ! i)
       \<and> \<not> has_any_issue (?out2 ! i)
       \<and> ((\<forall>s. position (df ! i) = Some s \<longrightarrow> (\<forall>c\<in>set s. c < 128))
            \<longrightarrow> position (?out2 ! i) = position (out ! i))" if i: "i < length out" for i
  proof -
    from i len have idf: "i < length df" by simp
    from i len ls ld have o2: "?out2 ! i = clean_row U (out ! i) (sals ! i) (dts ! i)" by simp
    from idf ls sr have a: "\<not> invalid_salary (Some (sals ! i))" by (simp add: not_less)
    from idf ld dr have b: "\<not> invalid_start_date (Some (dts ! i))" by (simp add: not_less)
    have p: "title U (strip U (title U (strip U
                 (case position (df ! i) of None \<Rightarrow> str_of ''Unknown'' | Some s \<Rightarrow> s))))
           = title U (strip U (case position (df ! i) of None \<Rightarrow> str_of ''Unknown'' | Some s \<Rightarrow> s))"
      if "\<forall>s. position (df ! i) = Some s \<longrightarrow> (\<forall>c\<in>set s. c < 128)"
      using that str_of_ascii_Unknown by (intro normalise_idem) (simp split: option.splits)
    show ?thesis unfolding o2 unfolding nth[OF idf]
      using a b p by (simp del: invalid_salary.simps invalid_start_date.simps)
  qed
  from c2 l2 row show ?thesis by blast
qed

theorem clean_idempotent_witness:
  "clean unicode_excerpt example_batch = Inr example_cleaned
   \<and> map_sum id (map (\<lambda>c. (name c, position c, start_date c, salary c, has_any_issue c)))
         (clean unicode_excerpt example_cleaned)
       = Inr [(Some (str_of ''Ada''), Some (str_of ''Data Engineer''), Val (2016, 1, 1), Val 70000, False),
              (Some (str_of ''Unknown''), Some (str_of ''Unknown''), Val (2016, 1, 1), Val 80000, False),
              (Some (str_of ''Bob''), Some (str_of ''Chef''), Val (2020, 5, 5), Val 75000, False),
              (Some (str_of ''Cy''), Some (str_of ''Qa Engineer''), Val (2016, 1, 1), Val 75000, False)]"
proof -
  from clean_idempotent[OF clean_example_batch] obtain out2
    where c2: "clean unicode_excerpt example_cleaned = Inr out2"
      and l2: "length out2 = length example_cleaned"
      and rows: "\<forall>i<length example_cleaned.
                 employee_id (out2 ! i) = employee_id (example_cleaned ! i)
               \<and> name (out2 ! i) = name (example_cleaned ! i)
               \<and> start_date (out2 ! i) = start_date (example_cleaned ! i)
               \<and> salary (out2 ! i) = salary (example_cleaned ! i)
               \<and> department_id (out2 ! i) = department_id (example_cleaned ! i)
               \<and> is_dirty (out2 ! i) = is_dirty (example_cleaned ! i)
               \<and> \<not> issue_missing_name (out2 ! i) \<and> \<not> issue_missing_position (out2 ! i)
               \<and> \<not> issue_missing_start_date (out2 ! i) \<and> \<not> issue_missing_salary (out2 ! i)
               \<and> \<not> issue_invalid_salary (out2 ! i) \<and> \<not> issue_invalid_start_date (out2 ! i)
               \<and> \<not> has_any_issue (out2 ! i)
               \<and> ((\<forall>s. position (example_batch ! i) = Some s \<longrightarrow> (\<forall>c\<in>set s. c < 128))
                    \<longrightarrow> position (out2 ! i) = position (example_cleaned ! i))"
    by blast
  have ascii: "\<forall>i<length example_cleaned.
                 \<forall>s. position (example_batch ! i) = Some s \<longrightarrow> (\<forall>c\<in>set s. c < 128)"
  proof -
    have "\<forall>r\<in>set example_batch. \<forall>s. position r = Some s \<longrightarrow> (\<forall>c\<in>set s. c < 128)"
      by (auto simp: example_batch_def str_of_def)
    moreover have "length example_cleaned = length example_batch"
      by (simp add: example_batch_def example_cleaned_def)
    ultimately show ?thesis by (metis nth_mem)
  qed
  from rows ascii l2
  have "map (\<lambda>c. (name c, position c, start_date c, salary c, has_any_issue c)) out2
        = map (\<lambda>c. (name c, position c, start_date c, salary c, False)) example_cleaned"
    by (intro nth_equalityI) simp_all
  with c2 clean_example_batch show ?thesis by (simp add: example_cleaned_def)
qed

text \<open>The title case of U+01F0 is \<open>J\<close> followed by the combining caron U+030C, which
  is not cased: the first pass leaves the letter after it in lower case, since it follows
  the cased U+01F0, and the second pass puts it in upper case, since it now follows the
  caron.\<close>

theorem clean_twice_changes_position:
  "clean unicode_excerpt
     [\<lparr>employee_id = Val 1, name = Some (str_of ''Ada''), position = Some [0x1F0, 0x61],
       start_date = Val (2016, 1, 1), salary = Val 70000, department_id = Val 1,
       is_dirty = False\<rparr>]
   = Inr [\<lparr>employee_id = Val 1, name = Some (str_of ''Ada''), position = Some [0x4A, 0x30C, 0x61],
       start_date = Val (2016, 1, 1), salary = Val 70000, department_id = Val 1,
       is_dirty = False, issue_missing_name = False, issue_missing_position = False,
       issue_missing_start_date = False, issue_missing_salary = False,
       issue_invalid_salary = False, issue_invalid_start_date = False, has_any_issue = False\<rparr>]
   \<and> map_sum id (map position)
       (clean unicode_excerpt
          [\<lparr>employee_id = Val 1, name = Some (str_of ''Ada''),
            position = Some [0x4A, 0x30C, 0x61],
            start_date = Val (2016, 1, 1), salary = Val 70000, department_id = Val 1,
            is_dirty = False, issue_missing_name = False, issue_missing_position = False,
            issue_missing_start_date = False, issue_missing_salary = False,
            issue_invalid_salary = False, issue_invalid_start_date = False,
            has_any_issue = False\<rparr>])
     = Inr [Some [0x4A, 0x30C, 0x41]]"
  by code_simp

end
